theory Spec2Isabelle
  imports Main
begin

section \<open>Strings as the commands use them\<close>

text \<open>
  The commands of \<^verbatim>\<open>bot/cogs/parsers.py\<close> work on lines of a text log. A line is a
  \<^typ>\<open>string\<close>; \<^verbatim>\<open>line.strip()\<close> removes the ASCII white space Python's
  \<^verbatim>\<open>str.isspace\<close> accepts from both ends.
\<close>

definition isspace :: "char \<Rightarrow> bool" where
  "isspace c = (c \<in> set [CHR 0x09, CHR 0x0A, CHR 0x0B, CHR 0x0C, CHR 0x0D,
                          CHR 0x1C, CHR 0x1D, CHR 0x1E, CHR 0x1F, CHR 0x20])"

definition strip :: "string \<Rightarrow> string" where
  "strip s = rev (dropWhile isspace (rev (dropWhile isspace s)))"

text \<open>\<^verbatim>\<open>str.lower()\<close> on the letters that matter for the test \<^verbatim>\<open>'mis' in name.lower()\<close>.\<close>

definition lower_char :: "char \<Rightarrow> char" where
  "lower_char c =
     (case map_of (zip ''ABCDEFGHIJKLMNOPQRSTUVWXYZ'' ''abcdefghijklmnopqrstuvwxyz'') c of
        Some d \<Rightarrow> d
      | None \<Rightarrow> c)"

definition lower :: "string \<Rightarrow> string" where
  "lower s = map lower_char s"

text \<open>\<^verbatim>\<open>sub in s\<close>: \<open>sub\<close> occurs in \<open>s\<close> as a contiguous run.\<close>

fun str_in :: "string \<Rightarrow> string \<Rightarrow> bool" where
  "str_in sub [] = (sub = [])"
| "str_in sub (c # cs) = (take (length sub) (c # cs) = sub \<or> str_in sub cs)"

text \<open>Python's \<^verbatim>\<open>str\<close> of an integer, used by the f-string that builds a server key.\<close>

definition digit_char :: "nat \<Rightarrow> char" where
  "digit_char d = ''0123456789'' ! d"

fun str_nat :: "nat \<Rightarrow> string" where
  "str_nat n = (if n < 10 then [digit_char n] else str_nat (n div 10) @ [digit_char (n mod 10)])"

declare str_nat.simps [simp del]

definition str_int :: "int \<Rightarrow> string" where
  "str_int i = (if i < 0 then CHR ''-'' # str_nat (nat (- i)) else str_nat (nat i))"

section \<open>The pattern table\<close>

text \<open>
  \<^verbatim>\<open>self.bot.log_parser.log_patterns\<close> is a table of compiled regular expressions,
  built outside this file. A pattern is taken as what \<^verbatim>\<open>pattern.search(line)\<close> gives:
  \<open>None\<close> for no match, otherwise \<^verbatim>\<open>match.groups()\<close>, where a group that took no part
  in the match is \<^verbatim>\<open>None\<close>.
\<close>

type_synonym groups = "string option list"

type_synonym pattern = "string \<Rightarrow> groups option"

record log_patterns =
  queue_join :: pattern
  player_joined :: pattern
  disconnect_post_join :: pattern
  mission_ready :: pattern
  mission_initial :: pattern
  airdrop_flying :: pattern

section \<open>The validator: \<^verbatim>\<open>validatelogparser\<close>\<close>

text \<open>The dictionary \<^verbatim>\<open>validation_results\<close>: ten fixed keys, all set to 0 at the start.\<close>

record validation_results =
  queue_joins :: int
  player_joins :: int
  disconnects_post_join :: int
  disconnects_pre_join :: int
  missions_ready :: int
  missions_initial :: int
  airdrops_flying :: int
  heli_crashes :: int
  traders :: int
  total_lines :: int

text \<open>
  The local variables of one call: the dictionary, the four lifecycle totals and the
  transient table \<^verbatim>\<open>player_states\<close>, keyed by the captured player id.
\<close>

record replay_state =
  results :: validation_results
  jq :: int
  j2 :: int
  d1 :: int
  d2 :: int
  player_states :: "string option \<rightharpoonup> string"

definition init_results :: validation_results where
  "init_results = \<lparr>queue_joins = 0, player_joins = 0, disconnects_post_join = 0,
     disconnects_pre_join = 0, missions_ready = 0, missions_initial = 0,
     airdrops_flying = 0, heli_crashes = 0, traders = 0, total_lines = 0\<rparr>"

definition init_state :: replay_state where
  "init_state = \<lparr>results = init_results, jq = 0, j2 = 0, d1 = 0, d2 = 0,
     player_states = Map.empty\<rparr>"

text \<open>
  What can be raised inside the loop: unpacking \<^verbatim>\<open>match.groups()\<close> into two names
  (\<open>ValueError\<close>), \<^verbatim>\<open>match.groups()[0]\<close> on an empty tuple (\<open>IndexError\<close>),
  \<^verbatim>\<open>.lower()\<close> on \<^verbatim>\<open>None\<close> (\<open>AttributeError\<close>).
\<close>

datatype py_error = ValueError | IndexError | AttributeError

text \<open>The branches of the \<^verbatim>\<open>if\<close>/\<^verbatim>\<open>elif\<close> chain, one definition each.\<close>

definition on_queue_join :: "replay_state \<Rightarrow> groups \<Rightarrow> py_error + replay_state" where
  "on_queue_join st gs =
     (case gs of
        [player_name, player_id] \<Rightarrow>
          Inr (st\<lparr>results := (results st)\<lparr>queue_joins := queue_joins (results st) + 1\<rparr>,
                  jq := jq st + 1,
                  player_states := (player_states st)(player_id \<mapsto> ''QUEUED'')\<rparr>)
      | _ \<Rightarrow> Inl ValueError)"

definition on_player_joined :: "replay_state \<Rightarrow> groups \<Rightarrow> py_error + replay_state" where
  "on_player_joined st gs =
     (case gs of
        [] \<Rightarrow> Inl IndexError
      | player_id # _ \<Rightarrow>
          Inr (st\<lparr>results := (results st)\<lparr>player_joins := player_joins (results st) + 1\<rparr>,
                  j2 := j2 st + 1,
                  player_states := (player_states st)(player_id \<mapsto> ''JOINED'')\<rparr>))"

definition on_disconnect :: "replay_state \<Rightarrow> groups \<Rightarrow> py_error + replay_state" where
  "on_disconnect st gs =
     (case gs of
        [] \<Rightarrow> Inl IndexError
      | player_id # _ \<Rightarrow>
          (let st1 = st\<lparr>results := (results st)\<lparr>disconnects_post_join :=
                                      disconnects_post_join (results st) + 1\<rparr>\<rparr>;
               st2 = (if player_states st1 player_id = Some ''JOINED''
                      then st1\<lparr>d1 := d1 st1 + 1\<rparr>
                      else st1\<lparr>d2 := d2 st1 + 1\<rparr>)
           in Inr (st2\<lparr>player_states := (player_states st2)(player_id \<mapsto> ''DISCONNECTED'')\<rparr>)))"

definition on_mission_ready :: "replay_state \<Rightarrow> groups \<Rightarrow> py_error + replay_state" where
  "on_mission_ready st gs =
     (case gs of
        [] \<Rightarrow> Inl IndexError
      | None # _ \<Rightarrow> Inl AttributeError
      | Some mission_name # _ \<Rightarrow>
          (if str_in ''mis'' (lower mission_name)
           then Inr (st\<lparr>results := (results st)\<lparr>missions_ready :=
                                       missions_ready (results st) + 1\<rparr>\<rparr>)
           else Inr st))"

definition on_mission_initial :: "replay_state \<Rightarrow> groups \<Rightarrow> py_error + replay_state" where
  "on_mission_initial st gs =
     (case gs of
        [] \<Rightarrow> Inl IndexError
      | None # _ \<Rightarrow> Inl AttributeError
      | Some mission_name # _ \<Rightarrow>
          (if str_in ''mis'' (lower mission_name)
           then Inr (st\<lparr>results := (results st)\<lparr>missions_initial :=
                                       missions_initial (results st) + 1\<rparr>\<rparr>)
           else Inr st))"

definition on_airdrop_flying :: "replay_state \<Rightarrow> py_error + replay_state" where
  "on_airdrop_flying st =
     Inr (st\<lparr>results := (results st)\<lparr>airdrops_flying := airdrops_flying (results st) + 1\<rparr>\<rparr>)"

text \<open>
  One iteration of the loop over the file: count the line, strip it, and take the first
  branch of the chain whose pattern matches.
\<close>

definition process_line :: "log_patterns \<Rightarrow> replay_state \<Rightarrow> string \<Rightarrow> py_error + replay_state" where
  "process_line pats st0 raw =
     (let st = st0\<lparr>results := (results st0)\<lparr>total_lines := total_lines (results st0) + 1\<rparr>\<rparr>;
          line = strip raw
      in case queue_join pats line of
           Some gs \<Rightarrow> on_queue_join st gs
         | None \<Rightarrow>
        (case player_joined pats line of
           Some gs \<Rightarrow> on_player_joined st gs
         | None \<Rightarrow>
        (case disconnect_post_join pats line of
           Some gs \<Rightarrow> on_disconnect st gs
         | None \<Rightarrow>
        (case mission_ready pats line of
           Some gs \<Rightarrow> on_mission_ready st gs
         | None \<Rightarrow>
        (case mission_initial pats line of
           Some gs \<Rightarrow> on_mission_initial st gs
         | None \<Rightarrow>
        (case airdrop_flying pats line of
           Some gs \<Rightarrow> on_airdrop_flying st
         | None \<Rightarrow> Inr st))))))"

text \<open>The loop: an exception in one line ends it.\<close>

fun replay :: "log_patterns \<Rightarrow> replay_state \<Rightarrow> string list \<Rightarrow> py_error + replay_state" where
  "replay pats st [] = Inr st"
| "replay pats st (l # ls) =
     (case process_line pats st l of
        Inl e \<Rightarrow> Inl e
      | Inr st' \<Rightarrow> replay pats st' ls)"

text \<open>
  What the embed shows: the figures of the four fields, in the order of the source. The
  line labelled d1 prints \<^verbatim>\<open>validation_results['disconnects_post_join']\<close>, the line
  labelled d2 prints the local variable \<^verbatim>\<open>d2\<close>.
\<close>

record report =
  rep_total_lines :: int
  rep_queue_joins :: int
  rep_player_joins :: int
  rep_disconnects_post_join :: int
  rep_disconnects_pre_join :: int
  rep_player_count :: int
  rep_queue_count :: int
  rep_missions_ready :: int
  rep_missions_initial :: int
  rep_airdrops_flying :: int
  patterns_working :: bool
  player_count_valid :: bool
  queue_count_valid :: bool

definition make_report :: "replay_state \<Rightarrow> report" where
  "make_report st =
     (let player_count = j2 st - d1 st;
          queue_count = jq st - j2 st - d2 st
      in \<lparr>rep_total_lines = total_lines (results st),
          rep_queue_joins = queue_joins (results st),
          rep_player_joins = player_joins (results st),
          rep_disconnects_post_join = disconnects_post_join (results st),
          rep_disconnects_pre_join = d2 st,
          rep_player_count = player_count,
          rep_queue_count = queue_count,
          rep_missions_ready = missions_ready (results st),
          rep_missions_initial = missions_initial (results st),
          rep_airdrops_flying = airdrops_flying (results st),
          patterns_working = (queue_joins (results st) > 0),
          player_count_valid = (player_count \<ge> 0),
          queue_count_valid = (queue_count \<ge> 0)\<rparr>)"

section \<open>The long-lived objects hung off the bot\<close>

text \<open>
  The live state is held in dictionaries keyed by the server key
  \<^verbatim>\<open>f"{guild_id}_{server_id}"\<close>. Their values are built outside this file and stay
  type parameters. The commands probe for each attribute with \<^verbatim>\<open>hasattr\<close>; an
  attribute that is absent is \<open>None\<close>.
\<close>

record ('ps, 'st) connection_parser =
  live_player_states :: "(string \<rightharpoonup> 'ps) option"
  server_stats :: "(string \<rightharpoonup> 'st) option"

record ('pos, 'fs, 'ps, 'st, 'ss) log_parser =
  log_patterns :: log_patterns
  last_log_position :: "(string \<rightharpoonup> 'pos) option"
  file_states :: "(string \<rightharpoonup> 'fs) option"
  connection_parser :: "('ps, 'st) connection_parser option"
  server_status :: "(string \<rightharpoonup> 'ss) option"

text \<open>
  \<^verbatim>\<open>not hasattr(self.bot, 'log_parser') or not self.bot.log_parser\<close>: the bot has a
  usable log parser or none.
\<close>

record ('pos, 'fs, 'ps, 'st, 'ss) bot =
  bot_log_parser :: "('pos, 'fs, 'ps, 'st, 'ss) log_parser option"

text \<open>The answers the two commands send back.\<close>

datatype response =
    NotInitialized
  | FileNotFound
  | Report report
  | ValidateFailed py_error
  | NotConfigured
  | NoServers
  | ServerNotFound string
  | ResetDone nat

text \<open>
  The command \<^verbatim>\<open>validatelogparser\<close>. The file is the list of its lines, \<open>None\<close> when
  \<^verbatim>\<open>os.path.exists\<close> fails. The command returns its answer and the bot as it leaves it.
\<close>

definition validatelogparser ::
  "('pos, 'fs, 'ps, 'st, 'ss) bot \<Rightarrow> string list option \<Rightarrow>
     response \<times> ('pos, 'fs, 'ps, 'st, 'ss) bot" where
  "validatelogparser b file =
     (case bot_log_parser b of
        None \<Rightarrow> (NotInitialized, b)
      | Some lp \<Rightarrow>
        (case file of
           None \<Rightarrow> (FileNotFound, b)
         | Some lines \<Rightarrow>
           (case replay (log_patterns lp) init_state lines of
              Inl e \<Rightarrow> (ValidateFailed e, b)
            | Inr st \<Rightarrow> (Report (make_report st), b))))"

section \<open>The reset: \<^verbatim>\<open>resetlogparser\<close>\<close>

text \<open>
  A configured server, as far as the command reads it: \<^verbatim>\<open>server.get('_id')\<close>, which is
  \<^verbatim>\<open>None\<close> when the key is missing and is turned into text by \<^verbatim>\<open>str\<close> or by the
  f-string.
\<close>

record server =
  srv_id :: "string option"

definition str_id :: "string option \<Rightarrow> string" where
  "str_id v = (case v of None \<Rightarrow> ''None'' | Some s \<Rightarrow> s)"

text \<open>
  The guild configuration returned by \<^verbatim>\<open>db_manager.get_guild\<close>: a dictionary with an
  optional entry \<^verbatim>\<open>'servers'\<close>. It is falsy when it has no key at all.
\<close>

record guild_config =
  other_keys :: bool
  servers :: "server list option"

definition config_truthy :: "guild_config \<Rightarrow> bool" where
  "config_truthy c = (other_keys c \<or> servers c \<noteq> None)"

definition get_servers :: "guild_config \<Rightarrow> server list" where
  "get_servers c = (case servers c of None \<Rightarrow> [] | Some l \<Rightarrow> l)"

definition server_key :: "int \<Rightarrow> string \<Rightarrow> string" where
  "server_key guild_id server_id = str_int guild_id @ ''_'' @ server_id"

text \<open>\<^verbatim>\<open>if hasattr(obj, 'd'): obj.d.pop(server_key, None)\<close>\<close>

definition pop_key :: "('k \<rightharpoonup> 'v) option \<Rightarrow> 'k \<Rightarrow> ('k \<rightharpoonup> 'v) option" where
  "pop_key attr k = (case attr of None \<Rightarrow> None | Some m \<Rightarrow> Some (m(k := None)))"

text \<open>
  The block of five \<^verbatim>\<open>pop\<close>s, which the source writes out once in each branch of the
  command.
\<close>

definition reset_key ::
  "('pos, 'fs, 'ps, 'st, 'ss) log_parser \<Rightarrow> string \<Rightarrow> ('pos, 'fs, 'ps, 'st, 'ss) log_parser" where
  "reset_key lp k =
     lp\<lparr>last_log_position := pop_key (last_log_position lp) k,
        file_states := pop_key (file_states lp) k,
        connection_parser :=
          (case connection_parser lp of
             None \<Rightarrow> None
           | Some cp \<Rightarrow> Some (cp\<lparr>live_player_states := pop_key (live_player_states cp) k,
                                 server_stats := pop_key (server_stats cp) k\<rparr>)),
        server_status := pop_key (server_status lp) k\<rparr>"

text \<open>
  The loop of the branch for one server: the first configured server whose id is the
  requested one is reset and the loop breaks. The result is \<^verbatim>\<open>server_found\<close> and the
  log parser.
\<close>

fun reset_specific ::
  "('pos, 'fs, 'ps, 'st, 'ss) log_parser \<Rightarrow> int \<Rightarrow> string \<Rightarrow> server list \<Rightarrow>
     bool \<times> ('pos, 'fs, 'ps, 'st, 'ss) log_parser" where
  "reset_specific lp guild_id server_id [] = (False, lp)"
| "reset_specific lp guild_id server_id (s # ss) =
     (if str_id (srv_id s) = server_id
      then (True, reset_key lp (server_key guild_id server_id))
      else reset_specific lp guild_id server_id ss)"

text \<open>The loop of the branch for all servers, with \<^verbatim>\<open>reset_count\<close>.\<close>

fun reset_all ::
  "('pos, 'fs, 'ps, 'st, 'ss) log_parser \<Rightarrow> int \<Rightarrow> nat \<Rightarrow> server list \<Rightarrow>
     nat \<times> ('pos, 'fs, 'ps, 'st, 'ss) log_parser" where
  "reset_all lp guild_id reset_count [] = (reset_count, lp)"
| "reset_all lp guild_id reset_count (s # ss) =
     reset_all (reset_key lp (server_key guild_id (str_id (srv_id s)))) guild_id
       (reset_count + 1) ss"

text \<open>
  The command \<^verbatim>\<open>resetlogparser\<close>. \<^verbatim>\<open>if server_id:\<close> holds for a given, non-empty
  string; \<open>None\<close> and the empty string take the branch for all servers.
\<close>

definition resetlogparser ::
  "('pos, 'fs, 'ps, 'st, 'ss) bot \<Rightarrow> int \<Rightarrow> guild_config option \<Rightarrow> string option \<Rightarrow>
     response \<times> ('pos, 'fs, 'ps, 'st, 'ss) bot" where
  "resetlogparser b guild_id config server_id =
     (case bot_log_parser b of
        None \<Rightarrow> (NotInitialized, b)
      | Some lp \<Rightarrow>
        (case config of
           None \<Rightarrow> (NotConfigured, b)
         | Some c \<Rightarrow>
           if \<not> config_truthy c then (NotConfigured, b)
           else if get_servers c = [] then (NoServers, b)
           else
             (let all_servers =
                    (case reset_all lp guild_id 0 (get_servers c) of
                       (reset_count, lp') \<Rightarrow> (ResetDone reset_count, b\<lparr>bot_log_parser := Some lp'\<rparr>))
              in case server_id of
                   None \<Rightarrow> all_servers
                 | Some sid \<Rightarrow>
                     if sid = [] then all_servers
                     else (case reset_specific lp guild_id sid (get_servers c) of
                             (False, _) \<Rightarrow> (ServerNotFound sid, b)
                           | (True, lp') \<Rightarrow> (ResetDone 1, b\<lparr>bot_log_parser := Some lp'\<rparr>)))))"

text \<open>An entry of one of the optional dictionaries: nothing when the attribute is absent.\<close>

definition entry :: "('k \<rightharpoonup> 'v) option \<Rightarrow> 'k \<Rightarrow> 'v option" where
  "entry attr k = (case attr of None \<Rightarrow> None | Some m \<Rightarrow> m k)"

text \<open>
  What the log parser holds for one server key: its log position, its file state, its
  player states, its server stats and its server status.
\<close>

definition position_at :: "('pos, 'fs, 'ps, 'st, 'ss) log_parser \<Rightarrow> string \<Rightarrow> 'pos option" where
  "position_at lp k = entry (last_log_position lp) k"

definition file_state_at :: "('pos, 'fs, 'ps, 'st, 'ss) log_parser \<Rightarrow> string \<Rightarrow> 'fs option" where
  "file_state_at lp k = entry (file_states lp) k"

definition players_at :: "('pos, 'fs, 'ps, 'st, 'ss) log_parser \<Rightarrow> string \<Rightarrow> 'ps option" where
  "players_at lp k =
     (case connection_parser lp of
        None \<Rightarrow> None
      | Some cp \<Rightarrow> entry (live_player_states cp) k)"

definition stats_at :: "('pos, 'fs, 'ps, 'st, 'ss) log_parser \<Rightarrow> string \<Rightarrow> 'st option" where
  "stats_at lp k =
     (case connection_parser lp of
        None \<Rightarrow> None
      | Some cp \<Rightarrow> entry (server_stats cp) k)"

definition status_at :: "('pos, 'fs, 'ps, 'st, 'ss) log_parser \<Rightarrow> string \<Rightarrow> 'ss option" where
  "status_at lp k = entry (server_status lp) k"

definition server_state ::
  "('pos, 'fs, 'ps, 'st, 'ss) log_parser \<Rightarrow> string \<Rightarrow>
     'pos option \<times> 'fs option \<times> 'ps option \<times> 'st option \<times> 'ss option" where
  "server_state lp k =
     (position_at lp k, file_state_at lp k, players_at lp k, stats_at lp k, status_at lp k)"

text \<open>The ids of the configured servers as the command compares and formats them.\<close>

definition server_ids :: "server list \<Rightarrow> string list" where
  "server_ids ss = map (\<lambda>s. str_id (srv_id s)) ss"

section \<open>First match over an ordered rule list\<close>

text \<open>
  The loop of \<^verbatim>\<open>test_regex\<close>: try the named patterns in order, stop at the first that
  matches.
\<close>

fun first_match :: "(string \<times> pattern) list \<Rightarrow> string \<Rightarrow> (string \<times> groups) option" where
  "first_match [] line = None"
| "first_match ((pattern_name, pattern) # rest) line =
     (case pattern line of
        Some gs \<Rightarrow> Some (pattern_name, gs)
      | None \<Rightarrow> first_match rest line)"

text \<open>The rules the validator tests, in the order of its chain.\<close>

definition validator_rules :: "log_patterns \<Rightarrow> (string \<times> pattern) list" where
  "validator_rules pats =
     [(''queue_join'', queue_join pats),
      (''player_joined'', player_joined pats),
      (''disconnect_post_join'', disconnect_post_join pats),
      (''mission_ready'', mission_ready pats),
      (''mission_initial'', mission_initial pats),
      (''airdrop_flying'', airdrop_flying pats)]"

text \<open>
  The mission filter: a captured name counts when it contains \<^verbatim>\<open>mis\<close> in any case.
\<close>

definition counts_as_mission :: "groups \<Rightarrow> bool" where
  "counts_as_mission gs =
     (case gs of Some mission_name # _ \<Rightarrow> str_in ''mis'' (lower mission_name) | _ \<Rightarrow> False)"

text \<open>
  The tally of a rule: the entry of \<^verbatim>\<open>validation_results\<close> its branch adds one to, a
  mission tally only for a name that passes the filter.
\<close>

definition bump_tally :: "string \<Rightarrow> groups \<Rightarrow> validation_results \<Rightarrow> validation_results" where
  "bump_tally rule gs r =
     (if rule = ''queue_join'' then r\<lparr>queue_joins := queue_joins r + 1\<rparr>
      else if rule = ''player_joined'' then r\<lparr>player_joins := player_joins r + 1\<rparr>
      else if rule = ''disconnect_post_join''
        then r\<lparr>disconnects_post_join := disconnects_post_join r + 1\<rparr>
      else if rule = ''mission_ready''
        then (if counts_as_mission gs then r\<lparr>missions_ready := missions_ready r + 1\<rparr> else r)
      else if rule = ''mission_initial''
        then (if counts_as_mission gs then r\<lparr>missions_initial := missions_initial r + 1\<rparr> else r)
      else if rule = ''airdrop_flying'' then r\<lparr>airdrops_flying := airdrops_flying r + 1\<rparr>
      else r)"

section \<open>Patterns whose captures have the shape the validator unpacks\<close>

text \<open>
  The validator unpacks two groups from a queue join and reads the first group of a player
  join, a disconnect and the two mission rules, the mission name being text. A pattern
  table is well shaped when every match has these groups; the loop then raises nothing.
\<close>

definition well_shaped :: "log_patterns \<Rightarrow> bool" where
  "well_shaped pats =
     ((\<forall>line gs. queue_join pats line = Some gs \<longrightarrow> length gs = 2) \<and>
      (\<forall>line. player_joined pats line \<noteq> Some []) \<and>
      (\<forall>line. disconnect_post_join pats line \<noteq> Some []) \<and>
      (\<forall>line gs. mission_ready pats line = Some gs \<longrightarrow> gs \<noteq> [] \<and> hd gs \<noteq> None) \<and>
      (\<forall>line gs. mission_initial pats line = Some gs \<longrightarrow> gs \<noteq> [] \<and> hd gs \<noteq> None))"

section \<open>A small pattern table and a small bot to run the commands on\<close>

text \<open>
  Sample patterns: a line is an event when it starts with a two-letter tag, and the rest
  of the line is the captured text (twice, as name and id, for a queue join).
\<close>

definition tagged :: "string \<Rightarrow> nat \<Rightarrow> pattern" where
  "tagged tag n line =
     (if take (length tag) line = tag
      then Some (replicate n (Some (drop (length tag) line)))
      else None)"

definition sample_patterns :: log_patterns where
  "sample_patterns =
     \<lparr>queue_join = tagged ''Q:'' 2, player_joined = tagged ''J:'' 1,
      disconnect_post_join = tagged ''D:'' 1, mission_ready = tagged ''R:'' 1,
      mission_initial = tagged ''I:'' 1, airdrop_flying = tagged ''A:'' 0\<rparr>"

definition sample_parser :: "(nat, nat, nat, nat, nat) log_parser" where
  "sample_parser =
     \<lparr>log_patterns = sample_patterns,
      last_log_position = Some [''7_a'' \<mapsto> 10, ''7_b'' \<mapsto> 20, ''8_a'' \<mapsto> 30],
      file_states = Some [''7_a'' \<mapsto> 11, ''7_b'' \<mapsto> 21, ''8_a'' \<mapsto> 31],
      connection_parser =
        Some \<lparr>live_player_states = Some [''7_a'' \<mapsto> 12, ''7_b'' \<mapsto> 22, ''8_a'' \<mapsto> 32],
              server_stats = Some [''7_a'' \<mapsto> 13, ''7_b'' \<mapsto> 23, ''8_a'' \<mapsto> 33]\<rparr>,
      server_status = Some [''7_a'' \<mapsto> 14, ''7_b'' \<mapsto> 24, ''8_a'' \<mapsto> 34]\<rparr>"

definition sample_bot :: "(nat, nat, nat, nat, nat) bot" where
  "sample_bot = \<lparr>bot_log_parser = Some sample_parser\<rparr>"

definition sample_servers :: "server list" where
  "sample_servers = [\<lparr>srv_id = Some ''a''\<rparr>, \<lparr>srv_id = Some ''b''\<rparr>]"

definition sample_config :: guild_config where
  "sample_config = \<lparr>other_keys = True, servers = Some sample_servers\<rparr>"

section \<open>Facts about the validator\<close>

lemmas branch_defs = on_queue_join_def on_player_joined_def on_disconnect_def
  on_mission_ready_def on_mission_initial_def on_airdrop_flying_def

lemmas sample_defs = sample_patterns_def tagged_def strip_def isspace_def init_state_def
  init_results_def lower_def lower_char_def eval_nat_numeral

lemma validate_report:
  "bot_log_parser b = Some lp \<Longrightarrow> replay (log_patterns lp) init_state lines = Inr st \<Longrightarrow>
     validatelogparser b (Some lines) = (Report (make_report st), b)"
  by (simp add: validatelogparser_def)

lemma well_shaped_sample: "well_shaped sample_patterns"
  by (auto simp: well_shaped_def sample_patterns_def tagged_def)

lemma sample_bot_parser: "bot_log_parser sample_bot = Some sample_parser"
  by (simp add: sample_bot_def)

lemma sample_parser_patterns: "log_patterns sample_parser = sample_patterns"
  by (simp add: sample_parser_def)

subsection \<open>The derived counts\<close>

text \<open>
  Claim C1. When the validator has gone through all lines of a file and \<open>st\<close> holds the
  totals \<open>jq\<close>, \<open>j2\<close>, \<open>d1\<close>, \<open>d2\<close> it accumulated, the command answers with a report whose
  player count is \<open>j2 - d1\<close> and whose queue count is \<open>jq - j2 - d2\<close>.
\<close>

theorem replay_reports_derived_counts:
  assumes "bot_log_parser b = Some lp"
    and "replay (log_patterns lp) init_state lines = Inr st"
  shows "\<exists>r. validatelogparser b (Some lines) = (Report r, b) \<and>
             rep_player_count r = j2 st - d1 st \<and>
             rep_queue_count r = jq st - j2 st - d2 st"
  using validate_report [OF assms] by (simp add: make_report_def)

theorem replay_reports_derived_counts_witness:
  "bot_log_parser sample_bot = Some sample_parser \<and>
   replay (log_patterns sample_parser) init_state
     [''Q:a'', ''Q:b'', ''J:a'', ''D:a'', ''D:b''] =
     Inr \<lparr>results = init_results\<lparr>queue_joins := 2, player_joins := 1,
                                  disconnects_post_join := 2, total_lines := 5\<rparr>,
          jq = 2, j2 = 1, d1 = 1, d2 = 1,
          player_states = [Some ''a'' \<mapsto> ''QUEUED'', Some ''b'' \<mapsto> ''QUEUED'',
             Some ''a'' \<mapsto> ''JOINED'', Some ''a'' \<mapsto> ''DISCONNECTED'',
             Some ''b'' \<mapsto> ''DISCONNECTED'']\<rparr> \<and>
   (\<exists>r. validatelogparser sample_bot
          (Some [''Q:a'', ''Q:b'', ''J:a'', ''D:a'', ''D:b'']) = (Report r, sample_bot) \<and>
        rep_player_count r = 0 \<and> rep_queue_count r = 0)"
proof -
  have h1: "bot_log_parser sample_bot = Some sample_parser"
    by (rule sample_bot_parser)
  have h2: "replay (log_patterns sample_parser) init_state
     [''Q:a'', ''Q:b'', ''J:a'', ''D:a'', ''D:b''] =
     Inr \<lparr>results = init_results\<lparr>queue_joins := 2, player_joins := 1,
                                  disconnects_post_join := 2, total_lines := 5\<rparr>,
          jq = 2, j2 = 1, d1 = 1, d2 = 1,
          player_states = [Some ''a'' \<mapsto> ''QUEUED'', Some ''b'' \<mapsto> ''QUEUED'',
             Some ''a'' \<mapsto> ''JOINED'', Some ''a'' \<mapsto> ''DISCONNECTED'',
             Some ''b'' \<mapsto> ''DISCONNECTED'']\<rparr>"
    by (simp add: sample_parser_def process_line_def branch_defs sample_defs)
  show ?thesis using h1 h2 replay_reports_derived_counts [OF h1 h2] by simp
qed

subsection \<open>Disconnects\<close>

text \<open>
  Claim C2. A line that the chain takes as a disconnect of \<open>player_id\<close> (neither the queue
  join nor the player join pattern matches it, the disconnect pattern does) adds one to
  \<open>d1\<close> when the table holds \<open>JOINED\<close> for that player, and otherwise (no entry, \<open>QUEUED\<close>,
  \<open>DISCONNECTED\<close>) adds one to \<open>d2\<close> and leaves \<open>d1\<close> as it was; in both cases the table then
  holds \<open>DISCONNECTED\<close> for the player.
\<close>

theorem disconnect_counts_by_prior_state:
  assumes "queue_join pats (strip raw) = None"
    and "player_joined pats (strip raw) = None"
    and "disconnect_post_join pats (strip raw) = Some (player_id # gs)"
  shows "\<exists>st'. process_line pats st raw = Inr st' \<and>
           d1 st' = (if player_states st player_id = Some ''JOINED'' then d1 st + 1 else d1 st) \<and>
           d2 st' = (if player_states st player_id = Some ''JOINED'' then d2 st else d2 st + 1) \<and>
           player_states st' player_id = Some ''DISCONNECTED''"
  using assms by (simp add: process_line_def on_disconnect_def Let_def)

theorem disconnect_counts_by_prior_state_witness:
  "queue_join sample_patterns (strip ''D:a'') = None \<and>
   player_joined sample_patterns (strip ''D:a'') = None \<and>
   disconnect_post_join sample_patterns (strip ''D:a'') = Some [Some ''a''] \<and>
   (\<exists>st'. process_line sample_patterns
             (init_state\<lparr>player_states := [Some ''a'' \<mapsto> ''JOINED'']\<rparr>) ''D:a'' = Inr st' \<and>
          d1 st' = 1 \<and> d2 st' = 0 \<and> player_states st' (Some ''a'') = Some ''DISCONNECTED'') \<and>
   (\<exists>st'. process_line sample_patterns init_state ''D:a'' = Inr st' \<and>
          d1 st' = 0 \<and> d2 st' = 1 \<and> player_states st' (Some ''a'') = Some ''DISCONNECTED'') \<and>
   (\<exists>st'. process_line sample_patterns
             (init_state\<lparr>player_states := [Some ''a'' \<mapsto> ''QUEUED'']\<rparr>) ''D:a'' = Inr st' \<and>
          d1 st' = 0 \<and> d2 st' = 1 \<and> player_states st' (Some ''a'') = Some ''DISCONNECTED'')"
proof -
  have h1: "queue_join sample_patterns (strip ''D:a'') = None"
    and h2: "player_joined sample_patterns (strip ''D:a'') = None"
    and h3: "disconnect_post_join sample_patterns (strip ''D:a'') = Some [Some ''a'']"
    by (simp_all add: sample_defs)
  show ?thesis
    using h1 h2 h3
      disconnect_counts_by_prior_state [OF h1 h2 h3,
        of "init_state\<lparr>player_states := [Some ''a'' \<mapsto> ''JOINED'']\<rparr>"]
      disconnect_counts_by_prior_state [OF h1 h2 h3, of init_state]
      disconnect_counts_by_prior_state [OF h1 h2 h3,
        of "init_state\<lparr>player_states := [Some ''a'' \<mapsto> ''QUEUED'']\<rparr>"]
    by (simp add: init_state_def)
qed

subsection \<open>The loop raises nothing on well-shaped patterns\<close>

lemma on_queue_join_completes:
  "length gs = 2 \<Longrightarrow> \<exists>st'. on_queue_join st gs = Inr st'"
  by (cases gs; cases "tl gs") (auto simp: on_queue_join_def)

lemma on_player_joined_completes:
  "gs \<noteq> [] \<Longrightarrow> \<exists>st'. on_player_joined st gs = Inr st'"
  by (cases gs) (simp_all add: on_player_joined_def)

lemma on_disconnect_completes:
  "gs \<noteq> [] \<Longrightarrow> \<exists>st'. on_disconnect st gs = Inr st'"
  by (cases gs) (simp_all add: on_disconnect_def Let_def)

lemma on_mission_ready_completes:
  "gs \<noteq> [] \<Longrightarrow> hd gs \<noteq> None \<Longrightarrow> \<exists>st'. on_mission_ready st gs = Inr st'"
  by (cases gs; cases "hd gs") (auto simp: on_mission_ready_def)

lemma on_mission_initial_completes:
  "gs \<noteq> [] \<Longrightarrow> hd gs \<noteq> None \<Longrightarrow> \<exists>st'. on_mission_initial st gs = Inr st'"
  by (cases gs; cases "hd gs") (auto simp: on_mission_initial_def)

lemma process_line_completes:
  assumes "well_shaped pats"
  shows "\<exists>st'. process_line pats st raw = Inr st'"
proof -
  let ?st = "st\<lparr>results := (results st)\<lparr>total_lines := total_lines (results st) + 1\<rparr>\<rparr>"
  let ?l = "strip raw"
  show ?thesis
  proof (cases "queue_join pats ?l")
    case (Some gs)
    then have "length gs = 2" using assms by (simp add: well_shaped_def)
    from on_queue_join_completes [OF this, of ?st] Some show ?thesis
      by (simp add: process_line_def Let_def)
  next
    case q: None
    show ?thesis
    proof (cases "player_joined pats ?l")
      case (Some gs)
      then have "gs \<noteq> []" using assms by (auto simp: well_shaped_def)
      from on_player_joined_completes [OF this, of ?st] q Some show ?thesis
        by (simp add: process_line_def Let_def)
    next
      case j: None
      show ?thesis
      proof (cases "disconnect_post_join pats ?l")
        case (Some gs)
        then have "gs \<noteq> []" using assms by (auto simp: well_shaped_def)
        from on_disconnect_completes [OF this, of ?st] q j Some show ?thesis
          by (simp add: process_line_def Let_def)
      next
        case d: None
        show ?thesis
        proof (cases "mission_ready pats ?l")
          case (Some gs)
          then have "gs \<noteq> []" "hd gs \<noteq> None" using assms by (auto simp: well_shaped_def)
          from on_mission_ready_completes [OF this, of ?st] q j d Some show ?thesis
            by (simp add: process_line_def Let_def)
        next
          case m: None
          show ?thesis
          proof (cases "mission_initial pats ?l")
            case (Some gs)
            then have "gs \<noteq> []" "hd gs \<noteq> None" using assms by (auto simp: well_shaped_def)
            from on_mission_initial_completes [OF this, of ?st] q j d m Some show ?thesis
              by (simp add: process_line_def Let_def)
          next
            case i: None
            with q j d m show ?thesis
              by (cases "airdrop_flying pats ?l")
                 (simp_all add: process_line_def Let_def on_airdrop_flying_def)
          qed
        qed
      qed
    qed
  qed
qed

lemma replay_completes:
  "well_shaped pats \<Longrightarrow> \<exists>st'. replay pats st ls = Inr st'"
proof (induction ls arbitrary: st)
  case Nil
  then show ?case by simp
next
  case (Cons l ls)
  from process_line_completes [OF Cons.prems]
  obtain st1 where "process_line pats st l = Inr st1" by blast
  with Cons.IH [OF Cons.prems, of st1] show ?case by simp
qed

subsection \<open>Negative derived counts\<close>

text \<open>
  Claim C3, as it is written, asks for a negative derived count to be clamped to zero in
  the report. The validator does not clamp: a file with one player join and no queue join
  is reported with queue count \<open>-1\<close>, and the validity flag of the queue count is off.
\<close>

theorem negative_queue_count_not_clamped:
  "validatelogparser sample_bot (Some [''J:a'']) =
     (Report \<lparr>rep_total_lines = 1, rep_queue_joins = 0, rep_player_joins = 1,
        rep_disconnects_post_join = 0, rep_disconnects_pre_join = 0,
        rep_player_count = 1, rep_queue_count = - 1, rep_missions_ready = 0,
        rep_missions_initial = 0, rep_airdrops_flying = 0,
        patterns_working = False, player_count_valid = True,
        queue_count_valid = False\<rparr>, sample_bot)"
  by (simp add: validatelogparser_def sample_bot_def sample_parser_def make_report_def
        process_line_def branch_defs sample_defs)

text \<open>
  Claim C3, amended. On well-shaped patterns the validator completes on every file and
  answers with a report; the report carries the derived counts as computed from the totals,
  negative or not, and each validity flag is on exactly when its count is not negative.
\<close>

theorem negative_counts_reported_and_flagged:
  assumes "bot_log_parser b = Some lp"
    and "well_shaped (log_patterns lp)"
  shows "\<exists>st r. replay (log_patterns lp) init_state lines = Inr st \<and>
           validatelogparser b (Some lines) = (Report r, b) \<and>
           rep_player_count r = j2 st - d1 st \<and>
           rep_queue_count r = jq st - j2 st - d2 st \<and>
           (player_count_valid r \<longleftrightarrow> 0 \<le> j2 st - d1 st) \<and>
           (queue_count_valid r \<longleftrightarrow> 0 \<le> jq st - j2 st - d2 st)"
proof -
  from replay_completes [OF assms(2)]
  obtain st where st: "replay (log_patterns lp) init_state lines = Inr st" by blast
  from validate_report [OF assms(1) st] st show ?thesis
    by (auto simp: make_report_def)
qed

theorem negative_counts_reported_and_flagged_witness:
  "bot_log_parser sample_bot = Some sample_parser \<and>
   well_shaped (log_patterns sample_parser) \<and>
   (\<exists>st r. replay (log_patterns sample_parser) init_state [''J:a''] = Inr st \<and>
      validatelogparser sample_bot (Some [''J:a'']) = (Report r, sample_bot) \<and>
      rep_player_count r = j2 st - d1 st \<and>
      rep_queue_count r = jq st - j2 st - d2 st \<and>
      (player_count_valid r \<longleftrightarrow> 0 \<le> j2 st - d1 st) \<and>
      (queue_count_valid r \<longleftrightarrow> 0 \<le> jq st - j2 st - d2 st))"
proof -
  have h1: "bot_log_parser sample_bot = Some sample_parser"
    by (rule sample_bot_parser)
  have h2: "well_shaped (log_patterns sample_parser)"
    by (simp add: sample_parser_patterns well_shaped_sample)
  from negative_counts_reported_and_flagged [OF h1 h2, of "[''J:a'']"] h1 h2
  show ?thesis by blast
qed

subsection \<open>The entry \<^verbatim>\<open>disconnects_pre_join\<close>\<close>

lemma process_line_pre_join_tally:
  "process_line pats st raw = Inr st' \<Longrightarrow>
     disconnects_pre_join (results st') = disconnects_pre_join (results st)"
  by (auto simp: process_line_def branch_defs Let_def
           split: option.splits list.splits if_splits)

lemma replay_pre_join_tally:
  "replay pats st ls = Inr st' \<Longrightarrow>
     disconnects_pre_join (results st') = disconnects_pre_join (results st)"
proof (induction ls arbitrary: st)
  case Nil
  then show ?case by simp
next
  case (Cons l ls)
  then show ?case
    by (auto split: sum.splits dest: process_line_pre_join_tally)
qed

text \<open>
  Claim C8. Whatever the file, the entry \<^verbatim>\<open>disconnects_pre_join\<close> of the dictionary is
  still 0 when the loop ends, and the figure the report gives for disconnects before a join
  is the local variable \<open>d2\<close>.
\<close>

theorem pre_join_tally_stays_zero:
  assumes "replay pats init_state ls = Inr st"
  shows "disconnects_pre_join (results st) = 0 \<and>
         rep_disconnects_pre_join (make_report st) = d2 st"
  using replay_pre_join_tally [OF assms]
  by (simp add: init_state_def init_results_def make_report_def)

theorem pre_join_tally_stays_zero_witness:
  "replay sample_patterns init_state [''D:a''] =
     Inr \<lparr>results = init_results\<lparr>disconnects_post_join := 1, total_lines := 1\<rparr>,
          jq = 0, j2 = 0, d1 = 0, d2 = 1,
          player_states = [Some ''a'' \<mapsto> ''DISCONNECTED'']\<rparr> \<and>
   disconnects_pre_join (results
     \<lparr>results = init_results\<lparr>disconnects_post_join := 1, total_lines := 1\<rparr>,
      jq = 0, j2 = 0, d1 = 0, d2 = 1,
      player_states = [Some ''a'' \<mapsto> ''DISCONNECTED'']\<rparr>) = 0 \<and>
   rep_disconnects_pre_join (make_report
     \<lparr>results = init_results\<lparr>disconnects_post_join := 1, total_lines := 1\<rparr>,
      jq = 0, j2 = 0, d1 = 0, d2 = 1,
      player_states = [Some ''a'' \<mapsto> ''DISCONNECTED'']\<rparr>) = 1"
proof -
  have h: "replay sample_patterns init_state [''D:a''] =
     Inr \<lparr>results = init_results\<lparr>disconnects_post_join := 1, total_lines := 1\<rparr>,
          jq = 0, j2 = 0, d1 = 0, d2 = 1,
          player_states = [Some ''a'' \<mapsto> ''DISCONNECTED'']\<rparr>"
    by (simp add: process_line_def branch_defs sample_defs)
  show ?thesis using h pre_join_tally_stays_zero [OF h] by simp
qed

section \<open>Facts about the classification of a line\<close>

lemma first_match_rules:
  "first_match (validator_rules pats) line =
     (case queue_join pats line of Some gs \<Rightarrow> Some (''queue_join'', gs) | None \<Rightarrow>
     (case player_joined pats line of Some gs \<Rightarrow> Some (''player_joined'', gs) | None \<Rightarrow>
     (case disconnect_post_join pats line of Some gs \<Rightarrow> Some (''disconnect_post_join'', gs) | None \<Rightarrow>
     (case mission_ready pats line of Some gs \<Rightarrow> Some (''mission_ready'', gs) | None \<Rightarrow>
     (case mission_initial pats line of Some gs \<Rightarrow> Some (''mission_initial'', gs) | None \<Rightarrow>
     (case airdrop_flying pats line of Some gs \<Rightarrow> Some (''airdrop_flying'', gs) | None \<Rightarrow> None))))))"
  by (simp add: validator_rules_def split: option.splits)

lemma on_queue_join_results:
  "on_queue_join st gs = Inr st' \<Longrightarrow> results st' = bump_tally ''queue_join'' gs (results st)"
  by (auto simp: on_queue_join_def bump_tally_def split: list.splits)

lemma on_player_joined_results:
  "on_player_joined st gs = Inr st' \<Longrightarrow> results st' = bump_tally ''player_joined'' gs (results st)"
  by (auto simp: on_player_joined_def bump_tally_def split: list.splits)

lemma on_disconnect_results:
  "on_disconnect st gs = Inr st' \<Longrightarrow>
     results st' = bump_tally ''disconnect_post_join'' gs (results st)"
  by (auto simp: on_disconnect_def bump_tally_def Let_def split: list.splits)

lemma on_mission_ready_results:
  "on_mission_ready st gs = Inr st' \<Longrightarrow> results st' = bump_tally ''mission_ready'' gs (results st)"
  by (auto simp: on_mission_ready_def bump_tally_def counts_as_mission_def
      split: list.splits option.splits if_splits)

lemma on_mission_initial_results:
  "on_mission_initial st gs = Inr st' \<Longrightarrow>
     results st' = bump_tally ''mission_initial'' gs (results st)"
  by (auto simp: on_mission_initial_def bump_tally_def counts_as_mission_def
      split: list.splits option.splits if_splits)

lemma on_airdrop_flying_results:
  "on_airdrop_flying st = Inr st' \<Longrightarrow> results st' = bump_tally ''airdrop_flying'' gs (results st)"
  by (auto simp: on_airdrop_flying_def bump_tally_def)

lemmas branch_results = on_queue_join_results on_player_joined_results on_disconnect_results
  on_mission_ready_results on_mission_initial_results on_airdrop_flying_results

text \<open>
  Claim C4, as it is written, has the tally of the first matching rule incremented on every
  line. A line whose first match is the mission-ready rule with the captured name \<open>abc\<close>
  leaves the mission tally as it was: only the line count changes.
\<close>

theorem first_match_mission_rule_need_not_count:
  "first_match (validator_rules sample_patterns) (strip ''R:abc'') =
     Some (''mission_ready'', [Some ''abc'']) \<and>
   process_line sample_patterns init_state ''R:abc'' =
     Inr (init_state\<lparr>results := init_results\<lparr>total_lines := 1\<rparr>\<rparr>) \<and>
   missions_ready (init_results\<lparr>total_lines := 1\<rparr>) = 0"
  by (simp add: validator_rules_def process_line_def branch_defs sample_defs)

text \<open>
  Claim C4, amended. Classification is first-match-wins over the ordered rules of the
  validator, queue join first: when a line is processed, the line count goes up by one and
  the dictionary changes further only in the tally of the first rule that matches, which
  goes up by one (for the two mission rules only when the captured name passes the mission
  filter); a line that matches no rule changes the line count only.
\<close>

theorem first_match_decides_tally:
  assumes "process_line pats st raw = Inr st'"
  shows "results st' =
     (case first_match (validator_rules pats) (strip raw) of
        None \<Rightarrow> (results st)\<lparr>total_lines := total_lines (results st) + 1\<rparr>
      | Some (rule, gs) \<Rightarrow>
          bump_tally rule gs ((results st)\<lparr>total_lines := total_lines (results st) + 1\<rparr>))"
  using assms
  by (auto simp: process_line_def Let_def first_match_rules
      split: option.splits dest!: branch_results)

theorem first_match_decides_tally_witness:
  "process_line sample_patterns init_state ''Q:a  '' =
     Inr (init_state\<lparr>results := init_results\<lparr>queue_joins := 1, total_lines := 1\<rparr>,
            jq := 1, player_states := [Some ''a'' \<mapsto> ''QUEUED'']\<rparr>) \<and>
   first_match (validator_rules sample_patterns) (strip ''Q:a  '') =
     Some (''queue_join'', [Some ''a'', Some ''a'']) \<and>
   results (init_state\<lparr>results := init_results\<lparr>queue_joins := 1, total_lines := 1\<rparr>,
            jq := 1, player_states := [Some ''a'' \<mapsto> ''QUEUED'']\<rparr>) =
     bump_tally ''queue_join'' [Some ''a'', Some ''a''] (init_results\<lparr>total_lines := 1\<rparr>) \<and>
   process_line sample_patterns init_state ''hello'' =
     Inr (init_state\<lparr>results := init_results\<lparr>total_lines := 1\<rparr>\<rparr>) \<and>
   first_match (validator_rules sample_patterns) (strip ''hello'') = None"
proof -
  have h: "process_line sample_patterns init_state ''Q:a  '' =
     Inr (init_state\<lparr>results := init_results\<lparr>queue_joins := 1, total_lines := 1\<rparr>,
            jq := 1, player_states := [Some ''a'' \<mapsto> ''QUEUED'']\<rparr>)"
    by (simp add: process_line_def branch_defs sample_defs)
  have f: "first_match (validator_rules sample_patterns) (strip ''Q:a  '') =
     Some (''queue_join'', [Some ''a'', Some ''a''])"
    by (simp add: validator_rules_def sample_defs)
  have h': "process_line sample_patterns init_state ''hello'' =
     Inr (init_state\<lparr>results := init_results\<lparr>total_lines := 1\<rparr>\<rparr>)"
    by (simp add: process_line_def branch_defs sample_defs)
  have f': "first_match (validator_rules sample_patterns) (strip ''hello'') = None"
    by (simp add: validator_rules_def sample_defs)
  show ?thesis
    using h h' f' first_match_decides_tally [OF h] first_match_decides_tally [OF h']
    by (simp add: f init_state_def init_results_def)
qed

subsection \<open>The mission filter\<close>

text \<open>
  Claim C10. Processing a line leaves the tally \<^verbatim>\<open>missions_ready\<close> as it was or adds one
  to it, and it adds one only when the mission-ready pattern matches the line with a
  captured name that contains \<^verbatim>\<open>mis\<close> in some case; the same holds for
  \<^verbatim>\<open>missions_initial\<close> and the mission-initial pattern. A line that the chain takes as a
  mission-ready or mission-initial line with a captured name without \<^verbatim>\<open>mis\<close> leaves both
  mission tallies as they were.
\<close>

theorem mission_tally_needs_mis:
  assumes "process_line pats st raw = Inr st'"
  shows "(missions_ready (results st') = missions_ready (results st) \<or>
          missions_ready (results st') = missions_ready (results st) + 1 \<and>
          (\<exists>name gs. mission_ready pats (strip raw) = Some (Some name # gs) \<and>
             str_in ''mis'' (lower name))) \<and>
         (missions_initial (results st') = missions_initial (results st) \<or>
          missions_initial (results st') = missions_initial (results st) + 1 \<and>
          (\<exists>name gs. mission_initial pats (strip raw) = Some (Some name # gs) \<and>
             str_in ''mis'' (lower name))) \<and>
         (\<forall>rule name gs.
            first_match (validator_rules pats) (strip raw) = Some (rule, Some name # gs) \<and>
            (rule = ''mission_ready'' \<or> rule = ''mission_initial'') \<and>
            \<not> str_in ''mis'' (lower name) \<longrightarrow>
            missions_ready (results st') = missions_ready (results st) \<and>
            missions_initial (results st') = missions_initial (results st))"
proof -
  let ?r = "(results st)\<lparr>total_lines := total_lines (results st) + 1\<rparr>"
  have r: "results st' =
     (case first_match (validator_rules pats) (strip raw) of
        None \<Rightarrow> ?r | Some (rule, gs) \<Rightarrow> bump_tally rule gs ?r)"
    using assms
    by (auto simp: process_line_def Let_def first_match_rules
        split: option.splits dest!: branch_results)
  show ?thesis
    unfolding r first_match_rules
    by (auto simp: bump_tally_def counts_as_mission_def split: option.splits list.splits)
qed

theorem mission_tally_needs_mis_witness:
  "process_line sample_patterns init_state ''R:abc'' =
     Inr (init_state\<lparr>results := init_results\<lparr>total_lines := 1\<rparr>\<rparr>) \<and>
   first_match (validator_rules sample_patterns) (strip ''R:abc'') =
     Some (''mission_ready'', [Some ''abc'']) \<and>
   \<not> str_in ''mis'' (lower ''abc'') \<and>
   missions_ready (results (init_state\<lparr>results := init_results\<lparr>total_lines := 1\<rparr>\<rparr>)) =
     missions_ready (results init_state) \<and>
   missions_initial (results (init_state\<lparr>results := init_results\<lparr>total_lines := 1\<rparr>\<rparr>)) =
     missions_initial (results init_state) \<and>
   process_line sample_patterns init_state ''I:GA_Mis1'' =
     Inr (init_state\<lparr>results := init_results\<lparr>missions_initial := 1, total_lines := 1\<rparr>\<rparr>) \<and>
   (\<exists>name gs. mission_initial sample_patterns (strip ''I:GA_Mis1'') = Some (Some name # gs) \<and>
      str_in ''mis'' (lower name))"
proof -
  have h: "process_line sample_patterns init_state ''R:abc'' =
     Inr (init_state\<lparr>results := init_results\<lparr>total_lines := 1\<rparr>\<rparr>)"
    by (simp add: process_line_def branch_defs sample_defs)
  have f: "first_match (validator_rules sample_patterns) (strip ''R:abc'') =
     Some (''mission_ready'', [Some ''abc''])"
    by (simp add: validator_rules_def sample_defs)
  have n: "\<not> str_in ''mis'' (lower ''abc'')"
    by (simp add: lower_def lower_char_def)
  have h': "process_line sample_patterns init_state ''I:GA_Mis1'' =
     Inr (init_state\<lparr>results := init_results\<lparr>missions_initial := 1, total_lines := 1\<rparr>\<rparr>)"
    by (simp add: process_line_def branch_defs sample_defs)
  from mission_tally_needs_mis [OF h] f n
  have a: "missions_ready (results (init_state\<lparr>results := init_results\<lparr>total_lines := 1\<rparr>\<rparr>)) =
             missions_ready (results init_state) \<and>
           missions_initial (results (init_state\<lparr>results := init_results\<lparr>total_lines := 1\<rparr>\<rparr>)) =
             missions_initial (results init_state)"
    by blast
  from mission_tally_needs_mis [OF h']
  have b: "\<exists>name gs. mission_initial sample_patterns (strip ''I:GA_Mis1'') =
             Some (Some name # gs) \<and> str_in ''mis'' (lower name)"
    by (simp add: init_state_def init_results_def)
  from h f n a h' b show ?thesis by blast
qed

section \<open>The validator and the live state\<close>

text \<open>
  Claim C5. The answer of the validator depends on the pattern table and the file only:
  two bots that agree on whether they have a log parser and on its patterns, whatever
  their log positions, file states, player states, server stats and server status, get the
  same answer for the same file; and the command leaves the bot as it found it. The
  state of the loop starts from \<open>init_state\<close> in every call.
\<close>

theorem validator_ignores_live_state:
  assumes "map_option log_patterns (bot_log_parser b1) = map_option log_patterns (bot_log_parser b2)"
  shows "fst (validatelogparser b1 file) = fst (validatelogparser b2 file) \<and>
         snd (validatelogparser b1 file) = b1"
  using assms
  by (cases "bot_log_parser b1"; cases "bot_log_parser b2")
     (auto simp: validatelogparser_def split: option.splits sum.splits)

theorem validator_ignores_live_state_witness:
  "map_option log_patterns (bot_log_parser sample_bot) =
     map_option log_patterns (bot_log_parser
       \<lparr>bot_log_parser = Some (sample_parser\<lparr>last_log_position := None, file_states := None,
           connection_parser := None, server_status := None\<rparr>)\<rparr>) \<and>
   sample_bot \<noteq> \<lparr>bot_log_parser = Some (sample_parser\<lparr>last_log_position := None,
       file_states := None, connection_parser := None, server_status := None\<rparr>)\<rparr> \<and>
   fst (validatelogparser sample_bot (Some [''Q:a'', ''D:a''])) =
     fst (validatelogparser
       \<lparr>bot_log_parser = Some (sample_parser\<lparr>last_log_position := None, file_states := None,
           connection_parser := None, server_status := None\<rparr>)\<rparr> (Some [''Q:a'', ''D:a''])) \<and>
   snd (validatelogparser sample_bot (Some [''Q:a'', ''D:a''])) = sample_bot"
proof -
  have h: "map_option log_patterns (bot_log_parser sample_bot) =
     map_option log_patterns (bot_log_parser
       \<lparr>bot_log_parser = Some (sample_parser\<lparr>last_log_position := None, file_states := None,
           connection_parser := None, server_status := None\<rparr>)\<rparr>)"
    by (simp add: sample_bot_def)
  have d: "sample_bot \<noteq> \<lparr>bot_log_parser = Some (sample_parser\<lparr>last_log_position := None,
       file_states := None, connection_parser := None, server_status := None\<rparr>)\<rparr>"
    by (simp add: sample_bot_def sample_parser_def)
  from validator_ignores_live_state [OF h, of "Some [''Q:a'', ''D:a'']"] h d
  show ?thesis by blast
qed

section \<open>Facts about the reset\<close>

lemmas at_defs = position_at_def file_state_at_def players_at_def stats_at_def status_at_def
  entry_def pop_key_def

lemma reset_key_state:
  "server_state (reset_key lp k) k' =
     (if k' = k then (None, None, None, None, None) else server_state lp k')"
  by (simp add: server_state_def reset_key_def at_defs split: option.splits)

lemma reset_key_patterns: "log_patterns (reset_key lp k) = log_patterns lp"
  by (simp add: reset_key_def)

lemma reset_specific_result:
  "reset_specific lp g sid ss =
     (if sid \<in> set (server_ids ss) then (True, reset_key lp (server_key g sid)) else (False, lp))"
  by (induction ss) (auto simp: server_ids_def)

lemma reset_all_count: "fst (reset_all lp g n ss) = n + length ss"
  by (induction ss arbitrary: lp n) auto

lemma reset_all_patterns: "log_patterns (snd (reset_all lp g n ss)) = log_patterns lp"
  by (induction ss arbitrary: lp n) (auto simp: reset_key_patterns)

lemma reset_all_state:
  "server_state (snd (reset_all lp g n ss)) k =
     (if k \<in> server_key g ` set (server_ids ss) then (None, None, None, None, None)
      else server_state lp k)"
proof (induction ss arbitrary: lp n)
  case Nil
  then show ?case by (simp add: server_ids_def)
next
  case (Cons s ss)
  then show ?case
    by (auto simp: server_ids_def reset_key_state)
qed

subsection \<open>Server keys name one server of one guild\<close>

lemma ten_Suc: "(10::nat) = Suc (Suc (Suc (Suc (Suc (Suc (Suc (Suc (Suc (Suc 0)))))))))"
  by simp

lemma digit_char_codes: "\<forall>d<10. of_char (digit_char d) = (48 + d :: nat)"
  unfolding ten_Suc by (simp add: All_less_Suc digit_char_def)

lemma digit_char_code: "d < 10 \<Longrightarrow> of_char (digit_char d) = (48 + d :: nat)"
  using digit_char_codes by blast

lemma digit_char_inject:
  assumes "d < 10" and "e < 10" and "digit_char d = digit_char e"
  shows "d = e"
proof -
  have "(48 + d :: nat) = of_char (digit_char d)"
    using digit_char_code [OF assms(1)] by simp
  also have "\<dots> = of_char (digit_char e)"
    by (simp only: assms(3))
  also have "\<dots> = 48 + e"
    by (rule digit_char_code [OF assms(2)])
  finally show ?thesis by simp
qed

lemma digit_char_plain:
  assumes "d < 10"
  shows "digit_char d \<noteq> CHR ''_'' \<and> digit_char d \<noteq> CHR ''-''"
proof -
  have "of_char (digit_char d) \<noteq> (95 :: nat)" "of_char (digit_char d) \<noteq> (45 :: nat)"
    using digit_char_code [OF assms] assms by simp_all
  then show ?thesis by auto
qed

lemma str_nat_nonempty: "str_nat n \<noteq> []"
  by (subst str_nat.simps) simp

lemma str_nat_plain: "c \<in> set (str_nat n) \<Longrightarrow> c \<noteq> CHR ''_'' \<and> c \<noteq> CHR ''-''"
proof (induction n rule: str_nat.induct)
  case (1 n)
  show ?case
  proof (cases "n < 10")
    case True
    with "1.prems" show ?thesis
      using digit_char_plain [of n] by (subst (asm) str_nat.simps) simp
  next
    case False
    with "1.prems" have "c \<in> set (str_nat (n div 10)) \<or> c = digit_char (n mod 10)"
      by (subst (asm) str_nat.simps) auto
    with False "1.IH" digit_char_plain [of "n mod 10"] show ?thesis by auto
  qed
qed

lemma str_nat_inject: "str_nat m = str_nat n \<Longrightarrow> m = n"
proof (induction m arbitrary: n rule: str_nat.induct)
  case (1 m)
  show ?case
  proof (cases "m < 10")
    case m: True
    show ?thesis
    proof (cases "n < 10")
      case True
      with m "1.prems" show ?thesis
        by (simp add: str_nat.simps [of m] str_nat.simps [of n] digit_char_inject)
    next
      case False
      with m "1.prems" str_nat_nonempty [of "n div 10"] show ?thesis
        by (simp add: str_nat.simps [of m] str_nat.simps [of n])
    qed
  next
    case m: False
    show ?thesis
    proof (cases "n < 10")
      case True
      with m "1.prems" str_nat_nonempty [of "m div 10"] show ?thesis
        by (simp add: str_nat.simps [of m] str_nat.simps [of n])
    next
      case False
      with m "1.prems" have e: "str_nat (m div 10) = str_nat (n div 10)"
        and d: "digit_char (m mod 10) = digit_char (n mod 10)"
        by (simp_all add: str_nat.simps [of m] str_nat.simps [of n])
      from "1.IH" [OF m e] have "m div 10 = n div 10" .
      moreover from d have "m mod 10 = n mod 10"
        by (intro digit_char_inject) simp_all
      ultimately show ?thesis
        by (metis div_mult_mod_eq)
    qed
  qed
qed

lemma str_int_plain: "CHR ''_'' \<notin> set (str_int i)"
  using str_nat_plain by (auto simp: str_int_def)

lemma str_int_inject: "str_int i = str_int j \<Longrightarrow> i = j"
proof -
  have hd_plain: "\<And>n. hd (str_nat n) \<noteq> CHR ''-''"
    using str_nat_plain str_nat_nonempty by (metis list.set_sel(1))
  assume a: "str_int i = str_int j"
  show ?thesis
  proof (cases "i < 0"; cases "j < 0")
    assume "i < 0" "j < 0"
    with a have "nat (- i) = nat (- j)" by (simp add: str_int_def str_nat_inject)
    with \<open>i < 0\<close> \<open>j < 0\<close> show ?thesis by simp
  next
    assume "i < 0" "\<not> j < 0"
    with a have "CHR ''-'' # str_nat (nat (- i)) = str_nat (nat j)" by (simp add: str_int_def)
    with hd_plain [of "nat j"] show ?thesis by (metis list.sel(1))
  next
    assume "\<not> i < 0" "j < 0"
    with a have "str_nat (nat i) = CHR ''-'' # str_nat (nat (- j))" by (simp add: str_int_def)
    with hd_plain [of "nat i"] show ?thesis by (metis list.sel(1))
  next
    assume "\<not> i < 0" "\<not> j < 0"
    with a have "nat i = nat j" by (simp add: str_int_def str_nat_inject)
    with \<open>\<not> i < 0\<close> \<open>\<not> j < 0\<close> show ?thesis by simp
  qed
qed

lemma split_at_first:
  "c \<notin> set xs \<Longrightarrow> c \<notin> set ys \<Longrightarrow> xs @ c # us = ys @ c # vs \<Longrightarrow> xs = ys \<and> us = vs"
proof (induction xs arbitrary: ys)
  case Nil
  then show ?case by (cases ys) auto
next
  case (Cons x xs)
  then show ?case by (cases ys) auto
qed

lemma server_key_inject:
  "server_key g sid = server_key g' sid' \<longleftrightarrow> g = g' \<and> sid = sid'"
proof
  assume "server_key g sid = server_key g' sid'"
  then have "str_int g @ CHR ''_'' # sid = str_int g' @ CHR ''_'' # sid'"
    by (simp add: server_key_def)
  from split_at_first [OF str_int_plain str_int_plain this]
  show "g = g' \<and> sid = sid'" by (auto dest: str_int_inject)
qed simp

subsection \<open>What the command does in each case\<close>

lemma bot_same: "bot_log_parser b = Some lp \<Longrightarrow> b\<lparr>bot_log_parser := Some lp\<rparr> = b"
  by (cases b) simp

lemma resetlogparser_specific:
  assumes "bot_log_parser b = Some lp" and "config_truthy c" and "get_servers c \<noteq> []"
    and "sid \<noteq> []"
  shows "resetlogparser b g (Some c) (Some sid) =
     (if sid \<in> set (server_ids (get_servers c))
      then (ResetDone 1, b\<lparr>bot_log_parser := Some (reset_key lp (server_key g sid))\<rparr>)
      else (ServerNotFound sid, b))"
  using assms by (simp add: resetlogparser_def reset_specific_result)

lemma resetlogparser_all:
  assumes "bot_log_parser b = Some lp" and "config_truthy c" and "get_servers c \<noteq> []"
    and "server_id = None \<or> server_id = Some []"
  shows "resetlogparser b g (Some c) server_id =
     (ResetDone (length (get_servers c)),
      b\<lparr>bot_log_parser := Some (snd (reset_all lp g 0 (get_servers c)))\<rparr>)"
proof -
  obtain n lp' where r: "reset_all lp g 0 (get_servers c) = (n, lp')"
    by (cases "reset_all lp g 0 (get_servers c)")
  from reset_all_count [of lp g 0 "get_servers c"] r have "n = length (get_servers c)"
    by simp
  with assms r show ?thesis
    by (auto simp: resetlogparser_def)
qed

lemma resetlogparser_cases:
  assumes "bot_log_parser b = Some lp"
  shows "snd (resetlogparser b g config server_id) = b \<or>
         (\<exists>c sid. config = Some c \<and> server_id = Some sid \<and> sid \<noteq> [] \<and>
            sid \<in> set (server_ids (get_servers c)) \<and>
            snd (resetlogparser b g config server_id) =
              b\<lparr>bot_log_parser := Some (reset_key lp (server_key g sid))\<rparr>) \<or>
         (\<exists>c. config = Some c \<and> (server_id = None \<or> server_id = Some []) \<and>
            snd (resetlogparser b g config server_id) =
              b\<lparr>bot_log_parser := Some (snd (reset_all lp g 0 (get_servers c)))\<rparr>)"
proof (cases config)
  case None
  with assms show ?thesis by (simp add: resetlogparser_def)
next
  case (Some c)
  show ?thesis
  proof (cases "config_truthy c \<and> get_servers c \<noteq> []")
    case False
    with assms Some show ?thesis by (auto simp: resetlogparser_def)
  next
    case True
    then have t: "config_truthy c" and s: "get_servers c \<noteq> []" by simp_all
    show ?thesis
    proof (cases "server_id = None \<or> server_id = Some []")
      case True
      from resetlogparser_all [OF assms t s True, of g] Some True show ?thesis by simp
    next
      case False
      then obtain sid where sid: "server_id = Some sid" "sid \<noteq> []" by auto
      from resetlogparser_specific [OF assms t s sid(2), of g] Some sid show ?thesis
        by (auto split: if_splits)
    qed
  qed
qed

subsection \<open>The sample guild\<close>

lemma sample_key_a: "server_key 7 ''a'' = ''7_a''"
  by (simp add: server_key_def str_int_def str_nat.simps digit_char_def)

lemma sample_key_b: "server_key 7 ''b'' = ''7_b''"
  by (simp add: server_key_def str_int_def str_nat.simps digit_char_def)

lemma sample_config_ok:
  "config_truthy sample_config" "get_servers sample_config \<noteq> []"
  "server_ids (get_servers sample_config) = [''a'', ''b'']"
  by (simp_all add: sample_config_def config_truthy_def get_servers_def sample_servers_def
        server_ids_def str_id_def)

lemma sample_states:
  "server_state sample_parser ''7_a'' = (Some 10, Some 11, Some 12, Some 13, Some 14)"
  "server_state sample_parser ''7_b'' = (Some 20, Some 21, Some 22, Some 23, Some 24)"
  "server_state sample_parser ''8_a'' = (Some 30, Some 31, Some 32, Some 33, Some 34)"
  by (simp_all add: server_state_def at_defs sample_parser_def)

subsection \<open>Reset of one server and of all servers\<close>

text \<open>
  Claim C6. With a log parser and a guild configuration that lists servers: a reset asked
  for a configured server id answers that one server was reset, and afterwards the log
  parser holds no log position, no file state, no player states, no server stats and no
  server status under that server's key; a reset asked with no server id (or an empty one)
  answers with the number of configured servers, and afterwards the same holds under the
  key of every configured server.
\<close>

theorem reset_clears_server_state:
  assumes "bot_log_parser b = Some lp" and "config_truthy c" and "get_servers c \<noteq> []"
  shows "(\<forall>sid. sid \<noteq> [] \<and> sid \<in> set (server_ids (get_servers c)) \<longrightarrow>
            (\<exists>lp'. resetlogparser b g (Some c) (Some sid) =
                      (ResetDone 1, b\<lparr>bot_log_parser := Some lp'\<rparr>) \<and>
                   server_state lp' (server_key g sid) = (None, None, None, None, None))) \<and>
         (\<forall>server_id. server_id = None \<or> server_id = Some [] \<longrightarrow>
            (\<exists>lp'. resetlogparser b g (Some c) server_id =
                      (ResetDone (length (get_servers c)), b\<lparr>bot_log_parser := Some lp'\<rparr>) \<and>
                   (\<forall>sid \<in> set (server_ids (get_servers c)).
                      server_state lp' (server_key g sid) = (None, None, None, None, None))))"
proof (intro conjI allI impI)
  fix sid
  assume "sid \<noteq> [] \<and> sid \<in> set (server_ids (get_servers c))"
  with resetlogparser_specific [OF assms, of sid g]
  show "\<exists>lp'. resetlogparser b g (Some c) (Some sid) =
                 (ResetDone 1, b\<lparr>bot_log_parser := Some lp'\<rparr>) \<and>
              server_state lp' (server_key g sid) = (None, None, None, None, None)"
    by (intro exI [of _ "reset_key lp (server_key g sid)"]) (simp add: reset_key_state)
next
  fix server_id :: "string option"
  assume "server_id = None \<or> server_id = Some []"
  from resetlogparser_all [OF assms this, of g]
  show "\<exists>lp'. resetlogparser b g (Some c) server_id =
                 (ResetDone (length (get_servers c)), b\<lparr>bot_log_parser := Some lp'\<rparr>) \<and>
              (\<forall>sid \<in> set (server_ids (get_servers c)).
                 server_state lp' (server_key g sid) = (None, None, None, None, None))"
    by (intro exI [of _ "snd (reset_all lp g 0 (get_servers c))"])
       (simp add: reset_all_state)
qed

theorem reset_clears_server_state_witness:
  "bot_log_parser sample_bot = Some sample_parser \<and> config_truthy sample_config \<and>
   get_servers sample_config \<noteq> [] \<and>
   server_state sample_parser (server_key 7 ''a'') = (Some 10, Some 11, Some 12, Some 13, Some 14) \<and>
   (\<exists>lp'. resetlogparser sample_bot 7 (Some sample_config) (Some ''a'') =
             (ResetDone 1, sample_bot\<lparr>bot_log_parser := Some lp'\<rparr>) \<and>
          server_state lp' (server_key 7 ''a'') = (None, None, None, None, None)) \<and>
   (\<exists>lp'. resetlogparser sample_bot 7 (Some sample_config) None =
             (ResetDone 2, sample_bot\<lparr>bot_log_parser := Some lp'\<rparr>) \<and>
          server_state lp' (server_key 7 ''a'') = (None, None, None, None, None) \<and>
          server_state lp' (server_key 7 ''b'') = (None, None, None, None, None))"
proof -
  have h1: "bot_log_parser sample_bot = Some sample_parser" by (simp add: sample_bot_def)
  note t = reset_clears_server_state [OF h1 sample_config_ok(1,2), of 7]
  from t have one: "\<exists>lp'. resetlogparser sample_bot 7 (Some sample_config) (Some ''a'') =
             (ResetDone 1, sample_bot\<lparr>bot_log_parser := Some lp'\<rparr>) \<and>
          server_state lp' (server_key 7 ''a'') = (None, None, None, None, None)"
    by (simp add: sample_config_ok(3))
  from t have "\<exists>lp'. resetlogparser sample_bot 7 (Some sample_config) None =
             (ResetDone (length (get_servers sample_config)),
              sample_bot\<lparr>bot_log_parser := Some lp'\<rparr>) \<and>
          (\<forall>sid \<in> set (server_ids (get_servers sample_config)).
             server_state lp' (server_key 7 sid) = (None, None, None, None, None))"
    by blast
  then obtain lp' where r: "resetlogparser sample_bot 7 (Some sample_config) None =
             (ResetDone (length (get_servers sample_config)),
              sample_bot\<lparr>bot_log_parser := Some lp'\<rparr>)"
    and c: "\<forall>sid \<in> set (server_ids (get_servers sample_config)).
             server_state lp' (server_key 7 sid) = (None, None, None, None, None)"
    by blast
  have len: "length (get_servers sample_config) = 2"
    by (simp add: sample_config_def get_servers_def sample_servers_def)
  from c have "server_state lp' (server_key 7 ''a'') = (None, None, None, None, None)"
    and "server_state lp' (server_key 7 ''b'') = (None, None, None, None, None)"
    by (simp_all add: sample_config_ok(3))
  with r len have all: "\<exists>lp'. resetlogparser sample_bot 7 (Some sample_config) None =
             (ResetDone 2, sample_bot\<lparr>bot_log_parser := Some lp'\<rparr>) \<and>
          server_state lp' (server_key 7 ''a'') = (None, None, None, None, None) \<and>
          server_state lp' (server_key 7 ''b'') = (None, None, None, None, None)"
    by (intro exI [of _ lp']) simp
  from h1 sample_config_ok(1,2) one all show ?thesis
    by (simp add: sample_key_a sample_states)
qed

subsection \<open>Reset of a server that is not configured\<close>

text \<open>
  Claim C7. A reset asked for a server id that no configured server of the guild has
  answers that the server was not found and leaves the bot, and so every log position, file
  state, player state, server stats and server status of every key, as it was.
\<close>

theorem reset_unknown_server_changes_nothing:
  assumes "bot_log_parser b = Some lp" and "config_truthy c" and "get_servers c \<noteq> []"
    and "sid \<noteq> []" and "sid \<notin> set (server_ids (get_servers c))"
  shows "resetlogparser b guild_id (Some c) (Some sid) = (ServerNotFound sid, b)"
  using resetlogparser_specific [OF assms(1-4)] assms(5) by simp

theorem reset_unknown_server_changes_nothing_witness:
  "bot_log_parser sample_bot = Some sample_parser \<and> config_truthy sample_config \<and>
   get_servers sample_config \<noteq> [] \<and> ''zz'' \<noteq> [] \<and>
   ''zz'' \<notin> set (server_ids (get_servers sample_config)) \<and>
   resetlogparser sample_bot 7 (Some sample_config) (Some ''zz'') =
     (ServerNotFound ''zz'', sample_bot)"
proof -
  have h1: "bot_log_parser sample_bot = Some sample_parser" by (simp add: sample_bot_def)
  have h4: "''zz'' \<noteq> []" by simp
  have h5: "''zz'' \<notin> set (server_ids (get_servers sample_config))"
    by (simp add: sample_config_ok)
  from reset_unknown_server_changes_nothing [OF h1 sample_config_ok(1,2) h4 h5, of 7] h1 sample_config_ok(1,2) h5
  show ?thesis by simp
qed

subsection \<open>What a reset leaves alone\<close>

text \<open>
  Claim C9. Whatever the configuration and the requested server id, a reset leaves the
  pattern table alone. A reset asked for one server changes nothing under any key other
  than that server's key; a reset of any kind changes nothing under a key that is not the
  key of a configured server of the guild, and so nothing under any key of another guild.
\<close>

theorem reset_leaves_other_keys:
  assumes "bot_log_parser b = Some lp"
  shows "\<exists>lp'. snd (resetlogparser b g config server_id) = b\<lparr>bot_log_parser := Some lp'\<rparr> \<and>
           log_patterns lp' = log_patterns lp \<and>
           (\<forall>sid k. server_id = Some sid \<and> sid \<noteq> [] \<and> k \<noteq> server_key g sid \<longrightarrow>
              server_state lp' k = server_state lp k) \<and>
           (\<forall>c k. config = Some c \<and> k \<notin> server_key g ` set (server_ids (get_servers c)) \<longrightarrow>
              server_state lp' k = server_state lp k) \<and>
           (\<forall>g' sid'. g' \<noteq> g \<longrightarrow>
              server_state lp' (server_key g' sid') = server_state lp (server_key g' sid'))"
proof -
  have other: "\<And>g' sid' ss. g' \<noteq> g \<Longrightarrow> server_key g' sid' \<notin> server_key g ` set ss"
    by (auto simp: server_key_inject)
  from resetlogparser_cases [OF assms, of g config server_id]
  consider (same) "snd (resetlogparser b g config server_id) = b"
    | (one) c sid where "config = Some c" "server_id = Some sid" "sid \<noteq> []"
        "sid \<in> set (server_ids (get_servers c))"
        "snd (resetlogparser b g config server_id) =
           b\<lparr>bot_log_parser := Some (reset_key lp (server_key g sid))\<rparr>"
    | (all) c where "config = Some c" "server_id = None \<or> server_id = Some []"
        "snd (resetlogparser b g config server_id) =
           b\<lparr>bot_log_parser := Some (snd (reset_all lp g 0 (get_servers c)))\<rparr>"
    by blast
  then show ?thesis
  proof cases
    case same
    with bot_same [OF assms] show ?thesis
      by (intro exI [of _ lp]) simp
  next
    case one
    then show ?thesis
      by (intro exI [of _ "reset_key lp (server_key g sid)"])
         (auto simp: reset_key_state reset_key_patterns server_key_inject)
  next
    case all
    then show ?thesis
      using other
      by (intro exI [of _ "snd (reset_all lp g 0 (get_servers c))"])
         (auto simp: reset_all_state reset_all_patterns)
  qed
qed

theorem reset_leaves_other_keys_witness:
  "bot_log_parser sample_bot = Some sample_parser \<and>
   (\<exists>lp'. snd (resetlogparser sample_bot 7 (Some sample_config) (Some ''a'')) =
             sample_bot\<lparr>bot_log_parser := Some lp'\<rparr> \<and>
          log_patterns lp' = sample_patterns \<and>
          server_state lp' ''7_b'' = (Some 20, Some 21, Some 22, Some 23, Some 24) \<and>
          server_state lp' ''8_a'' = (Some 30, Some 31, Some 32, Some 33, Some 34)) \<and>
   (\<exists>lp'. snd (resetlogparser sample_bot 7 (Some sample_config) None) =
             sample_bot\<lparr>bot_log_parser := Some lp'\<rparr> \<and>
          log_patterns lp' = sample_patterns \<and>
          server_state lp' ''8_a'' = (Some 30, Some 31, Some 32, Some 33, Some 34))"
proof -
  have h: "bot_log_parser sample_bot = Some sample_parser" by (rule sample_bot_parser)
  have k: "''7_b'' \<noteq> server_key 7 ''a''" "''8_a'' \<noteq> server_key 7 ''a''"
    by (simp_all add: sample_key_a)
  have k': "''8_a'' \<notin> server_key 7 ` set (server_ids (get_servers sample_config))"
    by (simp add: sample_config_ok(3) sample_key_a sample_key_b)
  from reset_leaves_other_keys [OF h, of 7 "Some sample_config" "Some ''a''"]
  obtain lp1 where one: "snd (resetlogparser sample_bot 7 (Some sample_config) (Some ''a'')) =
      sample_bot\<lparr>bot_log_parser := Some lp1\<rparr>"
    "log_patterns lp1 = log_patterns sample_parser"
    "\<forall>sid k. Some ''a'' = Some sid \<and> sid \<noteq> [] \<and> k \<noteq> server_key 7 sid \<longrightarrow>
       server_state lp1 k = server_state sample_parser k"
    by blast
  from one(3) k have s1: "server_state lp1 ''7_b'' = server_state sample_parser ''7_b''"
    "server_state lp1 ''8_a'' = server_state sample_parser ''8_a''"
    by simp_all
  from reset_leaves_other_keys [OF h, of 7 "Some sample_config" None]
  obtain lp2 where all: "snd (resetlogparser sample_bot 7 (Some sample_config) None) =
      sample_bot\<lparr>bot_log_parser := Some lp2\<rparr>"
    "log_patterns lp2 = log_patterns sample_parser"
    "\<forall>c k. Some sample_config = Some c \<and>
       k \<notin> server_key 7 ` set (server_ids (get_servers c)) \<longrightarrow>
       server_state lp2 k = server_state sample_parser k"
    by blast
  from all(3) k' have s2: "server_state lp2 ''8_a'' = server_state sample_parser ''8_a''"
    by simp
  from one(1,2) s1 have "\<exists>lp'. snd (resetlogparser sample_bot 7 (Some sample_config) (Some ''a'')) =
             sample_bot\<lparr>bot_log_parser := Some lp'\<rparr> \<and>
          log_patterns lp' = sample_patterns \<and>
          server_state lp' ''7_b'' = (Some 20, Some 21, Some 22, Some 23, Some 24) \<and>
          server_state lp' ''8_a'' = (Some 30, Some 31, Some 32, Some 33, Some 34)"
    by (intro exI [of _ lp1]) (simp add: sample_states sample_parser_patterns)
  moreover from all(1,2) s2
  have "\<exists>lp'. snd (resetlogparser sample_bot 7 (Some sample_config) None) =
             sample_bot\<lparr>bot_log_parser := Some lp'\<rparr> \<and>
          log_patterns lp' = sample_patterns \<and>
          server_state lp' ''8_a'' = (Some 30, Some 31, Some 32, Some 33, Some 34)"
    by (intro exI [of _ lp2]) (simp add: sample_states sample_parser_patterns)
  ultimately show ?thesis using h by blast
qed

end
